theory Spec2Isabelle
  imports Main "HOL-Library.AList"
begin

section \<open>Values crossing the worker boundary\<close>

text \<open>
  The worker answers with untyped JavaScript values (\<open>result?: any\<close>). The fields the
  processor reads from an extracted object are \<open>company_name\<close> and \<open>job_title\<close>; every
  other own property is carried along unread. A field is \<open>None\<close> when the property is
  absent (\<open>undefined\<close>) and a string otherwise, as the extraction prompt asks for;
  numbers are integers.
\<close>

record jobRecord =
  company_name :: "string option"
  job_title :: "string option"
  other_fields :: "(string \<times> string) list"

datatype jsval =
    JUndefined
  | JNull
  | JBool bool
  | JNum int
  | JStr string
  | JObj jobRecord

text \<open>JavaScript truthiness, as used by \<open>!x\<close>, \<open>x || y\<close>, \<open>x && y\<close> and \<open>x ? a : b\<close>.\<close>

fun truthy :: "jsval \<Rightarrow> bool" where
  "truthy JUndefined = False"
| "truthy JNull = False"
| "truthy (JBool b) = b"
| "truthy (JNum n) = (n \<noteq> 0)"
| "truthy (JStr s) = (s \<noteq> [])"
| "truthy (JObj r) = True"

fun strTruthy :: "string option \<Rightarrow> bool" where
  "strTruthy None = False"
| "strTruthy (Some s) = (s \<noteq> [])"

text \<open>
  Property reads \<open>v.company_name\<close> and \<open>v.job_title\<close>. A primitive has no such property
  and the read gives \<open>undefined\<close>; on \<open>null\<close> and \<open>undefined\<close> the read would throw,
  and every read in the source is guarded by a truthiness test of \<open>v\<close> first.
\<close>

fun prop_company_name :: "jsval \<Rightarrow> string option" where
  "prop_company_name (JObj r) = company_name r"
| "prop_company_name v = None"

fun prop_job_title :: "jsval \<Rightarrow> string option" where
  "prop_job_title (JObj r) = job_title r"
| "prop_job_title v = None"

text \<open>Conversion to a string inside a template literal: \<open>`${x}`\<close>.\<close>

fun template :: "string option \<Rightarrow> string" where
  "template None = ''undefined''"
| "template (Some s) = s"

text \<open>\<open>x || 'unknown'\<close> on a string-or-undefined field.\<close>

fun orElse :: "string option \<Rightarrow> string \<Rightarrow> string" where
  "orElse None d = d"
| "orElse (Some s) d = (if s = [] then d else s)"

section \<open>The inference adapter (WebLLMWorker.classify, extractJobData, determineStatus)\<close>

text \<open>
  \<open>await this.postMessage(...)\<close> either yields the value the request was resolved with
  or throws the error it was rejected with (worker error, timeout, termination).
\<close>

datatype reply = Resolved jsval | Rejected string

text \<open>
  Each operation throws when the adapter is not initialised; the throw happens before
  the \<open>try\<close> block and leaves the method. Inside the \<open>try\<close>, a rejected request is
  caught, logged to the console, and replaced by the default. \<open>Inl\<close> is the thrown
  message.
\<close>

definition classify :: "bool \<Rightarrow> reply \<Rightarrow> string + bool" where
  "classify isInitialized r =
     (if \<not> isInitialized then Inl ''WebLLM Worker not initialized''
      else case r of
             Resolved result \<Rightarrow> Inr (result = JBool True \<or> result = JStr ''YES'')
           | Rejected e \<Rightarrow> Inr False)"

definition extractJobData :: "bool \<Rightarrow> reply \<Rightarrow> string + jsval" where
  "extractJobData isInitialized r =
     (if \<not> isInitialized then Inl ''WebLLM Worker not initialized''
      else case r of
             Resolved result \<Rightarrow> Inr result
           | Rejected e \<Rightarrow> Inr JNull)"

definition validStatuses :: "string list" where
  "validStatuses =
     [''applied'', ''under_review'', ''interview_scheduled'', ''interview_completed'',
      ''offer_received'', ''offer_accepted'', ''rejected'', ''withdrawn'', ''pending'']"

text \<open>\<open>validStatuses.includes(result) ? result : "pending"\<close>: only a string can be included.\<close>

fun validated :: "jsval \<Rightarrow> string" where
  "validated (JStr s) = (if s \<in> set validStatuses then s else ''pending'')"
| "validated v = ''pending''"

definition determineStatus :: "bool \<Rightarrow> reply \<Rightarrow> string + string" where
  "determineStatus isInitialized r =
     (if \<not> isInitialized then Inl ''WebLLM Worker not initialized''
      else case r of
             Resolved result \<Rightarrow> Inr (validated result)
           | Rejected e \<Rightarrow> Inr ''pending'')"

section \<open>The per-email pipeline (EmailProcessingApp)\<close>

record EmailData =
  email_id :: string
  subject :: string
  from_addr :: string
  date :: string
  body :: string

text \<open>
  An entry of \<open>knownApplications\<close>: the extracted object spread into a new object,
  followed by the bookkeeping fields. \<open>status_history\<close>, \<open>email_count\<close> and
  \<open>current_status\<close> are \<open>None\<close> when the property is absent; the source guards the
  first two with \<open>|| []\<close> and \<open>|| 0\<close>.
\<close>

record knownApp = jobRecord +
  first_seen :: string
  status_history :: "string list option"
  email_count :: "nat option"
  current_status :: "string option"

text \<open>
  \<open>knownApplications\<close> is a plain object used as a dictionary. A key is taken not to be
  the name of a property every object inherits (such as \<open>__proto__\<close>), for which the
  \<open>in\<close> test of the source holds on any object.
\<close>

type_synonym registry = "string \<rightharpoonup> knownApp"

text \<open>
  What the environment does while one email is processed: how the three requests to
  the worker are settled, and whether the two calls of
  \<open>stateManager.updateKnownApplications\<close> (in \<open>finalizeResultNode\<close> and in the driver
  loop) succeed (\<open>None\<close>) or reject with a message.
\<close>

record script =
  classify_reply :: reply
  extract_reply :: reply
  status_reply :: reply
  finalize_save :: "string option"
  driver_save :: "string option"

datatype operation = OpClassify | OpExtract | OpStatus

text \<open>
  \<open>ApplicationState\<close> as the graph threads it. \<open>knownApplications\<close> is one object shared
  by every state of a run and mutated in place (the graph hands a node's fields on by
  reference); the model passes it along by value.
  \<open>calls\<close> is not a field of the source: it records, in order, each adapter operation
  the nodes invoke, with the content passed.
\<close>

record ApplicationState =
  email :: EmailData
  isJobRelated :: "bool option"
  jobData :: jsval
  isFirstInstance :: "bool option"
  applicationStatus :: "string option"
  knownApplications :: registry
  processingStage :: string
  errors :: "string list"
  calls :: "(operation \<times> string) list"

definition classifyEmailNode :: "bool \<Rightarrow> script \<Rightarrow> ApplicationState \<Rightarrow> ApplicationState" where
  "classifyEmailNode isInitialized sc state =
     (let emailContent = ''Subject: '' @ subject (email state) @ [CHR 0x0A] @
                         ''From: '' @ from_addr (email state) @ [CHR 0x0A] @
                         ''Content: '' @ take 1000 (body (email state));
          state' = state\<lparr>calls := calls state @ [(OpClassify, emailContent)]\<rparr>
      in case classify isInitialized (classify_reply sc) of
           Inr b \<Rightarrow>
             state'\<lparr>isJobRelated := Some b,
                    processingStage := (if b then ''extractJobData'' else ''finalizeResult'')\<rparr>
         | Inl msg \<Rightarrow>
             state'\<lparr>isJobRelated := Some False,
                    errors := errors state @ [''Classification failed: '' @ msg],
                    processingStage := ''finalizeResult''\<rparr>)"

definition extractJobDataNode :: "bool \<Rightarrow> script \<Rightarrow> ApplicationState \<Rightarrow> ApplicationState" where
  "extractJobDataNode isInitialized sc state =
     (let emailContent = ''Subject: '' @ subject (email state) @ [CHR 0x0A] @
                         ''From: '' @ from_addr (email state) @ [CHR 0x0A] @
                         ''Content: '' @ body (email state);
          state' = state\<lparr>calls := calls state @ [(OpExtract, emailContent)]\<rparr>
      in case extractJobData isInitialized (extract_reply sc) of
           Inr jd \<Rightarrow>
             state'\<lparr>jobData := jd, processingStage := ''checkFirstInstance''\<rparr>
         | Inl msg \<Rightarrow>
             state'\<lparr>jobData := JNull,
                    errors := errors state @ [''Job data extraction failed: '' @ msg],
                    processingStage := ''checkFirstInstance''\<rparr>)"

text \<open>\<open>`${jobData.company_name}_${jobData.job_title || 'unknown'}`\<close>\<close>

definition appKey :: "jsval \<Rightarrow> string" where
  "appKey jd = template (prop_company_name jd) @ ''_'' @ orElse (prop_job_title jd) ''unknown''"

text \<open>
  \<open>{...jobData, first_seen: email.date, status_history: ["applied"], email_count: 1}\<close>.
  Only an object with a truthy \<open>company_name\<close> reaches the spread.
\<close>

fun newEntry :: "jsval \<Rightarrow> string \<Rightarrow> knownApp" where
  "newEntry (JObj r) d =
     \<lparr>company_name = company_name r, job_title = job_title r, other_fields = other_fields r,
      first_seen = d, status_history = Some [''applied''], email_count = Some 1,
      current_status = None\<rparr>"
| "newEntry v d =
     \<lparr>company_name = None, job_title = None, other_fields = [],
      first_seen = d, status_history = Some [''applied''], email_count = Some 1,
      current_status = None\<rparr>"

text \<open>\<open>(email_count || 0) + 1\<close> and \<open>status_history || []\<close>\<close>

fun countOrZero :: "nat option \<Rightarrow> nat" where
  "countOrZero None = 0"
| "countOrZero (Some n) = n"

fun historyOrEmpty :: "string list option \<Rightarrow> string list" where
  "historyOrEmpty None = []"
| "historyOrEmpty (Some h) = h"

text \<open>
  Nothing inside the \<open>try\<close> of \<open>checkFirstInstanceNode\<close> can throw on these types (the
  entry read in the \<open>else\<close> branch exists), so its \<open>catch\<close> has no counterpart.
\<close>

definition checkFirstInstanceNode :: "ApplicationState \<Rightarrow> ApplicationState" where
  "checkFirstInstanceNode state =
     (if \<not> truthy (jobData state) \<or> \<not> strTruthy (prop_company_name (jobData state)) then
        state\<lparr>isFirstInstance := Some False, processingStage := ''determineStatus''\<rparr>
      else
        let key = appKey (jobData state);
            knownApps = knownApplications state
        in case knownApps key of
             None \<Rightarrow>
               state\<lparr>isFirstInstance := Some True,
                     knownApplications :=
                       knownApps(key \<mapsto> newEntry (jobData state) (date (email state))),
                     processingStage := ''determineStatus''\<rparr>
           | Some app \<Rightarrow>
               state\<lparr>isFirstInstance := Some False,
                     knownApplications :=
                       knownApps(key \<mapsto> app\<lparr>email_count := Some (countOrZero (email_count app) + 1)\<rparr>),
                     processingStage := ''determineStatus''\<rparr>)"

text \<open>The "Update status history" block of \<open>determineStatusNode\<close>.\<close>

definition updateStatusHistory :: "jsval \<Rightarrow> string \<Rightarrow> registry \<Rightarrow> registry" where
  "updateStatusHistory jd st apps =
     (if truthy jd then
        (case apps (appKey jd) of
           None \<Rightarrow> apps
         | Some app \<Rightarrow>
             apps(appKey jd \<mapsto>
               app\<lparr>status_history := Some (historyOrEmpty (status_history app) @ [st]),
                   current_status := Some st\<rparr>))
      else apps)"

definition determineStatusNode :: "bool \<Rightarrow> script \<Rightarrow> ApplicationState \<Rightarrow> ApplicationState" where
  "determineStatusNode isInitialized sc state =
     (let emailContent = ''Subject: '' @ subject (email state) @ [CHR 0x0A] @
                         ''Content: '' @ take 1000 (body (email state));
          state' = state\<lparr>calls := calls state @ [(OpStatus, emailContent)]\<rparr>
      in case determineStatus isInitialized (status_reply sc) of
           Inr st \<Rightarrow>
             state'\<lparr>applicationStatus := Some st,
                    knownApplications :=
                      updateStatusHistory (jobData state) st (knownApplications state),
                    processingStage := ''finalizeResult''\<rparr>
         | Inl msg \<Rightarrow>
             state'\<lparr>applicationStatus := Some ''unknown'',
                    errors := errors state @ [''Status determination failed: '' @ msg],
                    processingStage := ''finalizeResult''\<rparr>)"

text \<open>
  \<open>finalizeResultNode\<close> saves the registry and returns the state unchanged; the second
  component is the error thrown when the save rejects.
\<close>

definition finalizeResultNode :: "script \<Rightarrow> ApplicationState \<Rightarrow> ApplicationState \<times> string option" where
  "finalizeResultNode sc state = (state, finalize_save sc)"

text \<open>
  \<open>processingGraph.invoke\<close>, read off the edges declared in \<open>createProcessingGraph\<close>:
  START, classifyEmail, then extractJobData, checkFirstInstance, determineStatus when
  \<open>state.isJobRelated\<close> is truthy, then finalizeResult, END.
\<close>

definition invoke :: "bool \<Rightarrow> script \<Rightarrow> ApplicationState \<Rightarrow> ApplicationState \<times> string option" where
  "invoke isInitialized sc input =
     (let s1 = classifyEmailNode isInitialized sc input
      in if isJobRelated s1 = Some True then
           finalizeResultNode sc
             (determineStatusNode isInitialized sc
               (checkFirstInstanceNode
                 (extractJobDataNode isInitialized sc s1)))
         else finalizeResultNode sc s1)"

section \<open>The batch driver (processEmailsChronologically)\<close>

record outcome =
  emailId :: string
  isJobRelatedR :: bool
  jobDataR :: jsval
  isFirstInstanceR :: bool
  applicationStatusR :: string
  processingErrors :: "string list"

fun boolOrFalse :: "bool option \<Rightarrow> bool" where
  "boolOrFalse None = False"
| "boolOrFalse (Some b) = b"

definition initialState :: "EmailData \<Rightarrow> registry \<Rightarrow> ApplicationState" where
  "initialState em known =
     \<lparr>email = em, isJobRelated = None, jobData = JUndefined, isFirstInstance = None,
      applicationStatus = None, knownApplications = known, processingStage = ''classify'',
      errors = [], calls = []\<rparr>"

definition pushedResult :: "EmailData \<Rightarrow> ApplicationState \<Rightarrow> outcome" where
  "pushedResult em finalState =
     \<lparr>emailId = email_id em,
      isJobRelatedR = boolOrFalse (isJobRelated finalState),
      jobDataR = (if truthy (jobData finalState) then jobData finalState else JNull),
      isFirstInstanceR = boolOrFalse (isFirstInstance finalState),
      applicationStatusR = orElse (applicationStatus finalState) ''unknown'',
      processingErrors = errors finalState\<rparr>"

definition errorResult :: "EmailData \<Rightarrow> string \<Rightarrow> outcome" where
  "errorResult em msg =
     \<lparr>emailId = email_id em, isJobRelatedR = False, jobDataR = JNull,
      isFirstInstanceR = False, applicationStatusR = ''error'',
      processingErrors = [msg]\<rparr>"

text \<open>
  One iteration of the \<open>for\<close> loop: the outcome pushed, the shared registry as the
  iteration leaves it, and the adapter operations it invoked. The driver's own save
  runs only when \<open>invoke\<close> returned.
\<close>

definition processEmail ::
  "bool \<Rightarrow> registry \<Rightarrow> EmailData \<times> script \<Rightarrow> outcome \<times> registry \<times> (operation \<times> string) list" where
  "processEmail isInitialized known job =
     (let em = fst job; sc = snd job;
          invoked = invoke isInitialized sc (initialState em known);
          finalState = fst invoked;
          thrown = (case snd invoked of Some e \<Rightarrow> Some e | None \<Rightarrow> driver_save sc)
      in ((case thrown of
             None \<Rightarrow> pushedResult em finalState
           | Some e \<Rightarrow> errorResult em e),
          knownApplications finalState,
          calls finalState))"

fun processLoop ::
  "bool \<Rightarrow> registry \<Rightarrow> (EmailData \<times> script) list \<Rightarrow>
     outcome list \<times> registry \<times> (operation \<times> string) list" where
  "processLoop isInitialized known [] = ([], known, [])"
| "processLoop isInitialized known (job # jobs) =
     (case processEmail isInitialized known job of
        (out, known', cs) \<Rightarrow>
          (case processLoop isInitialized known' jobs of
             (outs, known'', cs') \<Rightarrow> (out # outs, known'', cs @ cs')))"

datatype jsError = JsError (errName: string) (errMessage: string)

text \<open>
  Each email of the input comes paired with its script.
  \<open>getTime\<close> is \<open>new Date(s).getTime()\<close> on the date strings of the input (valid dates);
  \<open>Array.prototype.sort\<close> with the comparator \<open>a - b\<close> is a stable ascending sort.
  \<open>load\<close> is what \<open>stateManager.getKnownApplications()\<close> settles with; its rejection is
  outside every \<open>try\<close> and leaves the method.
\<close>

definition sortedEmails :: "(string \<Rightarrow> int) \<Rightarrow> (EmailData \<times> script) list \<Rightarrow> (EmailData \<times> script) list" where
  "sortedEmails getTime emails = sort_key (\<lambda>job. getTime (date (fst job))) emails"

definition processEmailsChronologically ::
  "(string \<Rightarrow> int) \<Rightarrow> bool \<Rightarrow> jsError + registry \<Rightarrow> (EmailData \<times> script) list \<Rightarrow>
     jsError + outcome list \<times> registry \<times> (operation \<times> string) list" where
  "processEmailsChronologically getTime isInitialized load emails =
     (case load of
        Inl e \<Rightarrow> Inl e
      | Inr known \<Rightarrow>
          Inr (processLoop isInitialized known (sortedEmails getTime emails)))"

section \<open>The chunked driver (processEmailsWithAI in routes/dashboard.tsx)\<close>

record ProcessingProgress =
  totalEmails :: nat
  processedEmails :: nat
  currentBatch :: nat
  totalBatches :: nat
  currentStatus :: string
  results :: "outcome list"
  progressErrors :: "string list"

text \<open>Decimal rendering of a number inside a template literal.\<close>

definition digit :: "nat \<Rightarrow> char" where
  "digit d = ''0123456789'' ! d"

fun showNat :: "nat \<Rightarrow> string" where
  "showNat n = (if n < 10 then [digit n] else showNat (n div 10) @ [digit (n mod 10)])"

text \<open>
  The loop's variables: the local array \<open>results\<close> (here \<open>acc\<close>), the React progress
  state, and the adapter operations invoked so far (\<open>trace\<close>, not in the source).
\<close>

record aiState =
  acc :: "outcome list"
  progress :: ProcessingProgress
  trace :: "(operation \<times> string) list"

definition WEBLLM_BATCH_SIZE :: nat where
  "WEBLLM_BATCH_SIZE = 5"

text \<open>
  The three updates of an iteration: the \<open>setProgress\<close> that announces the batch, the
  \<open>results.push(...batchResults)\<close> with the \<open>setProgress\<close> that publishes the results,
  and the \<open>setProgress\<close> of the \<open>catch\<close> block. \<open>currentBatch\<close> is
  \<open>Math.floor(i / webllmBatchSize) + 1\<close>.
\<close>

definition announceBatch :: "nat \<Rightarrow> aiState \<Rightarrow> aiState" where
  "announceBatch batchNo st =
     st\<lparr>progress := (progress st)
          \<lparr>currentBatch := batchNo,
           currentStatus := ''AI processing batch '' @ showNat batchNo @ ''/'' @
                            showNat (totalBatches (progress st)) @ ''...''\<rparr>\<rparr>"

definition publishResults :: "outcome list \<Rightarrow> (operation \<times> string) list \<Rightarrow> aiState \<Rightarrow> aiState" where
  "publishResults batchResults cs st =
     st\<lparr>acc := acc st @ batchResults,
        progress := (progress st)
          \<lparr>processedEmails := length (acc st @ batchResults),
           results := acc st @ batchResults\<rparr>,
        trace := trace st @ cs\<rparr>"

definition recordFailure :: "nat \<Rightarrow> jsError \<Rightarrow> aiState \<Rightarrow> aiState" where
  "recordFailure batchNo e st =
     st\<lparr>progress := (progress st)
          \<lparr>progressErrors := progressErrors (progress st) @
             [''AI processing batch '' @ showNat batchNo @ '' failed: '' @ errMessage e]\<rparr>\<rparr>"

text \<open>
  \<open>aborted k\<close> is \<open>signal.aborted\<close> as read at the top of iteration \<open>k\<close> (counted from
  0), \<open>load k\<close> what \<open>getKnownApplications\<close> settles with inside that iteration's call
  of \<open>processEmailsChronologically\<close>. The first component of the result is the error
  thrown out of the loop, if any; without one the function returns \<open>acc\<close>. The
  processor is taken to be initialised (\<open>emailProcessorRef.current\<close> is set), and the
  delay of 100 ms after a batch has no counterpart.
\<close>

function aiLoop ::
  "(string \<Rightarrow> int) \<Rightarrow> bool \<Rightarrow> (nat \<Rightarrow> bool) \<Rightarrow> (nat \<Rightarrow> jsError + registry) \<Rightarrow>
     nat \<Rightarrow> (EmailData \<times> script) list \<Rightarrow> aiState \<Rightarrow> jsError option \<times> aiState" where
  "aiLoop getTime isInitialized aborted load k emails st =
     (if emails = [] then (None, st)
      else if aborted k then (Some (JsError ''Error'' ''Operation cancelled''), st)
      else
        let batch = take WEBLLM_BATCH_SIZE emails;
            st1 = announceBatch (k + 1) st
        in case processEmailsChronologically getTime isInitialized (load k) batch of
             Inr (batchResults, known, cs) \<Rightarrow>
               aiLoop getTime isInitialized aborted load (k + 1) (drop WEBLLM_BATCH_SIZE emails)
                 (publishResults batchResults cs st1)
           | Inl e \<Rightarrow>
               if errName e = ''AbortError'' then (Some e, st1)
               else
                 aiLoop getTime isInitialized aborted load (k + 1) (drop WEBLLM_BATCH_SIZE emails)
                   (recordFailure (k + 1) e st1))"
  by pat_completeness auto
termination
  by (relation "measure (\<lambda>(getTime, isInitialized, aborted, load, k, emails, st). length emails)")
     (auto simp: WEBLLM_BATCH_SIZE_def)

text \<open>
  The progress state as \<open>handleRetrieveAndProcessEmails\<close> resets it before a run.
\<close>

definition startingProgress :: ProcessingProgress where
  "startingProgress =
     \<lparr>totalEmails = 0, processedEmails = 0, currentBatch = 0, totalBatches = 0,
      currentStatus = ''Starting...'', results = [], progressErrors = []\<rparr>"

definition processEmailsWithAI ::
  "(string \<Rightarrow> int) \<Rightarrow> bool \<Rightarrow> (nat \<Rightarrow> bool) \<Rightarrow> (nat \<Rightarrow> jsError + registry) \<Rightarrow>
     (EmailData \<times> script) list \<Rightarrow> ProcessingProgress \<Rightarrow> jsError option \<times> aiState" where
  "processEmailsWithAI getTime isInitialized aborted load emails prev =
     aiLoop getTime isInitialized aborted load 0 emails
       \<lparr>acc = [],
        progress = prev\<lparr>currentStatus := ''Processing emails with AI...'',
                        totalBatches := (length emails + (WEBLLM_BATCH_SIZE - 1)) div WEBLLM_BATCH_SIZE,
                        currentBatch := 0\<rparr>,
        trace = []\<rparr>"

text \<open>
  Two loop states agree when they hold the same accumulated outcomes, the same trace of
  adapter operations and the same published results (a proof device for comparing runs).
\<close>

definition agree :: "aiState \<Rightarrow> aiState \<Rightarrow> bool" where
  "agree st st' \<longleftrightarrow> acc st = acc st' \<and> trace st = trace st' \<and>
                    results (progress st) = results (progress st')"

section \<open>The RPC channel (WebLLMWorker.postMessage, handleWorkerMessage, rejectAllPending)\<close>

record WorkerMessage =
  msg_id :: string
  msg_type :: string
  prompt :: "string option"

record WorkerResponse =
  resp_id :: string
  resp_result :: jsval
  resp_error :: "string option"
  resp_progress :: "(string \<times> int) option"

text \<open>A call of a promise's \<open>res(value)\<close> or \<open>rej(new Error(message))\<close>.\<close>

datatype settlement = Fulfilled jsval | Failed string

datatype consoleLine = Progress string int | UnknownRequest string

text \<open>
  Each call of \<open>postMessage\<close> creates one promise together with one timer; the model
  numbers them in order of creation. \<open>pendingRequests\<close> is the Map from message id to the
  handlers of a request (here its number), in insertion order. \<open>timers\<close> holds the armed
  timers: the request each would reject and the message id it would delete.
  \<open>settled\<close> lists every call of a request's \<open>res\<close> or \<open>rej\<close>, in order. \<open>worker\<close> is
  \<open>this.worker !== null\<close>.
\<close>

record channel =
  worker :: bool
  pendingRequests :: "(string \<times> nat) list"
  timers :: "nat \<rightharpoonup> string"
  settled :: "(nat \<times> settlement) list"
  nextRequest :: nat
  posted :: "WorkerMessage list"
  console :: "consoleLine list"

definition newChannel :: "bool \<Rightarrow> channel" where
  "newChannel w =
     \<lparr>worker = w, pendingRequests = [], timers = Map.empty, settled = [], nextRequest = 0,
      posted = [], console = []\<rparr>"

text \<open>
  \<open>generated\<close> is the value of \<open>`msg_${Date.now()}_${Math.random()}`\<close>, used when the
  message carries an empty id. The two \<open>set\<close> calls on the same key leave the wrapped
  handlers in the table.
\<close>

definition postMessage :: "WorkerMessage \<Rightarrow> string \<Rightarrow> channel \<Rightarrow> channel" where
  "postMessage message generated ch =
     (let n = nextRequest ch in
      if \<not> worker ch then
        ch\<lparr>settled := settled ch @ [(n, Failed ''Worker not initialized'')],
           nextRequest := n + 1\<rparr>
      else
        let messageId = (if msg_id message \<noteq> [] then msg_id message else generated) in
        ch\<lparr>pendingRequests := AList.update messageId n (pendingRequests ch),
           timers := (timers ch)(n \<mapsto> messageId),
           posted := posted ch @ [message\<lparr>msg_id := messageId\<rparr>],
           nextRequest := n + 1\<rparr>)"

definition handleWorkerMessage :: "WorkerResponse \<Rightarrow> channel \<Rightarrow> channel" where
  "handleWorkerMessage resp ch =
     (case resp_progress resp of
        Some (txt, percent) \<Rightarrow> ch\<lparr>console := console ch @ [Progress txt percent]\<rparr>
      | None \<Rightarrow>
          (case map_of (pendingRequests ch) (resp_id resp) of
             None \<Rightarrow> ch\<lparr>console := console ch @ [UnknownRequest (resp_id resp)]\<rparr>
           | Some n \<Rightarrow>
               ch\<lparr>pendingRequests := AList.delete (resp_id resp) (pendingRequests ch),
                  timers := (timers ch)(n := None),
                  settled := settled ch @
                    [(n, if strTruthy (resp_error resp)
                         then Failed (template (resp_error resp))
                         else Fulfilled (resp_result resp))]\<rparr>))"

text \<open>
  The callback of request \<open>n\<close>'s \<open>setTimeout\<close>. A timer that was cleared, or has fired,
  does not fire.
\<close>

definition timerFires :: "nat \<Rightarrow> channel \<Rightarrow> channel" where
  "timerFires n ch =
     (case timers ch n of
        None \<Rightarrow> ch
      | Some messageId \<Rightarrow>
          ch\<lparr>pendingRequests := AList.delete messageId (pendingRequests ch),
             timers := (timers ch)(n := None),
             settled := settled ch @ [(n, Failed (''Request '' @ messageId @ '' timed out''))]\<rparr>)"

fun rejectEach :: "string \<Rightarrow> (string \<times> nat) list \<Rightarrow> channel \<Rightarrow> channel" where
  "rejectEach err [] ch = ch"
| "rejectEach err (p # ps) ch =
     rejectEach err ps
       (ch\<lparr>timers := (timers ch)(snd p := None),
           settled := settled ch @ [(snd p, Failed err)]\<rparr>)"

definition rejectAllPending :: "string \<Rightarrow> channel \<Rightarrow> channel" where
  "rejectAllPending err ch = (rejectEach err (pendingRequests ch) ch)\<lparr>pendingRequests := []\<rparr>"

definition terminate :: "channel \<Rightarrow> channel" where
  "terminate ch =
     (if worker ch then
        rejectAllPending ''Worker terminated''
          (ch\<lparr>worker := False,
              posted := posted ch @ [\<lparr>msg_id = ''terminate'', msg_type = ''terminate'', prompt = None\<rparr>]\<rparr>)
      else ch)"

text \<open>Everything that can happen to the channel, and a run of such events.\<close>

datatype event =
    Post WorkerMessage string
  | Message WorkerResponse
  | TimerFires nat
  | WorkerError string
  | Terminate

fun step :: "event \<Rightarrow> channel \<Rightarrow> channel" where
  "step (Post message generated) ch = postMessage message generated ch"
| "step (Message resp) ch = handleWorkerMessage resp ch"
| "step (TimerFires n) ch = timerFires n ch"
| "step (WorkerError msg) ch = rejectAllPending (''Worker error: '' @ msg) ch"
| "step Terminate ch = terminate ch"

definition run :: "event list \<Rightarrow> channel \<Rightarrow> channel" where
  "run evs ch = fold step evs ch"

text \<open>How many times request \<open>n\<close> has been settled.\<close>

definition resolutions :: "nat \<Rightarrow> channel \<Rightarrow> nat" where
  "resolutions n ch = length (filter (\<lambda>p. fst p = n) (settled ch))"

text \<open>
  The invariant of the channel. Message ids in the table are distinct; the request behind
  a table entry has its timer armed, for that id; a request whose timer is armed has been
  created and not settled; a created request whose timer is no longer armed has been
  settled exactly once; a request not yet created has not been settled.
\<close>

definition chanInv :: "channel \<Rightarrow> bool" where
  "chanInv ch \<longleftrightarrow>
     distinct (map fst (pendingRequests ch)) \<and>
     (\<forall>i n. map_of (pendingRequests ch) i = Some n \<longrightarrow> timers ch n = Some i) \<and>
     (\<forall>n. timers ch n \<noteq> None \<longrightarrow> n < nextRequest ch \<and> resolutions n ch = 0) \<and>
     (\<forall>n. n < nextRequest ch \<longrightarrow> timers ch n = None \<longrightarrow> resolutions n ch = 1) \<and>
     (\<forall>n. nextRequest ch \<le> n \<longrightarrow> resolutions n ch = 0)"

section \<open>The application key as the specification words it\<close>

text \<open>
  The specification calls the key case-normalized and names \<open>acme_engineer\<close> as the key
  of company "Acme", title "Engineer". \<open>specKey\<close> is that reading, lower-casing ASCII
  letters; it is compared with \<open>appKey\<close> below and is not part of the program.
\<close>

definition lowerCase :: "char \<Rightarrow> char" where
  "lowerCase c =
     (case map_of (zip ''ABCDEFGHIJKLMNOPQRSTUVWXYZ'' ''abcdefghijklmnopqrstuvwxyz'') c of
        None \<Rightarrow> c
      | Some l \<Rightarrow> l)"

definition caseNormalized :: "string \<Rightarrow> string" where
  "caseNormalized s = map lowerCase s"

definition specKey :: "jsval \<Rightarrow> string" where
  "specKey jd =
     caseNormalized (template (prop_company_name jd)) @ ''_'' @
     caseNormalized (orElse (prop_job_title jd) ''unknown'')"

section \<open>Example inputs\<close>

text \<open>
  Inputs for the concrete instances below: an email with a given id and date, a script
  in which every request succeeds and both saves succeed, the extracted record of the
  Acme/Engineer scenario, and \<open>new Date(s).getTime()\<close> (milliseconds, UTC) at the two
  dates of that scenario.
\<close>

definition mail :: "string \<Rightarrow> string \<Rightarrow> EmailData" where
  "mail i d =
     \<lparr>email_id = i, subject = ''Your application'', from_addr = ''jobs@acme.example'',
      date = d, body = ''Thank you for applying.''\<rparr>"

definition answers :: "jsval \<Rightarrow> jsval \<Rightarrow> jsval \<Rightarrow> script" where
  "answers c x s =
     \<lparr>classify_reply = Resolved c, extract_reply = Resolved x, status_reply = Resolved s,
      finalize_save = None, driver_save = None\<rparr>"

definition acmeEngineer :: jsval where
  "acmeEngineer = JObj \<lparr>company_name = Some ''Acme'', job_title = Some ''Engineer'', other_fields = []\<rparr>"

definition epochMs :: "string \<Rightarrow> int" where
  "epochMs s =
     (if s = ''2024-01-01'' then 1704067200000
      else if s = ''2024-01-15'' then 1705276800000
      else 0)"

definition acmeScenario :: "(EmailData \<times> script) list" where
  "acmeScenario =
     [(mail ''m1'' ''2024-01-01'', answers (JBool True) acmeEngineer (JStr ''applied'')),
      (mail ''m2'' ''2024-01-15'', answers (JBool True) acmeEngineer (JStr ''interview_scheduled''))]"

text \<open>Six emails that are not job related, all of the same date: two chunks.\<close>

definition sixMails :: "(EmailData \<times> script) list" where
  "sixMails = map (\<lambda>n. (mail n ''2024-01-01'', answers (JBool False) JNull JNull))
                [''a'', ''b'', ''c'', ''d'', ''e'', ''f'']"

text \<open>A classify request and the worker's answer to it.\<close>

definition classifyRequest :: WorkerMessage where
  "classifyRequest = \<lparr>msg_id = ''classify_1'', msg_type = ''classify'', prompt = Some ''Is this email job related?''\<rparr>"

definition classifyAnswer :: WorkerResponse where
  "classifyAnswer = \<lparr>resp_id = ''classify_1'', resp_result = JBool True, resp_error = None, resp_progress = None\<rparr>"

section \<open>Auxiliary facts\<close>

declare showNat.simps [simp del]
declare aiLoop.simps [simp del]

lemma classify_cases:
  "classify i r = (if i then Inr (r = Resolved (JBool True) \<or> r = Resolved (JStr ''YES''))
                   else Inl ''WebLLM Worker not initialized'')"
  by (cases r) (simp_all add: classify_def)

lemma classifyEmailNode_fields [simp]:
  "knownApplications (classifyEmailNode i sc st) = knownApplications st"
  "jobData (classifyEmailNode i sc st) = jobData st"
  "isFirstInstance (classifyEmailNode i sc st) = isFirstInstance st"
  "applicationStatus (classifyEmailNode i sc st) = applicationStatus st"
  "email (classifyEmailNode i sc st) = email st"
  "isJobRelated (classifyEmailNode i sc st) = Some (classify i (classify_reply sc) = Inr True)"
  "errors (classifyEmailNode i sc st) =
     errors st @ (if i then [] else [''Classification failed: WebLLM Worker not initialized''])"
  "map fst (calls (classifyEmailNode i sc st)) = map fst (calls st) @ [OpClassify]"
  by (simp_all add: classifyEmailNode_def classify_cases Let_def)

lemma extractJobData_cases:
  "extractJobData i r = (if i then Inr (case r of Resolved v \<Rightarrow> v | Rejected e \<Rightarrow> JNull)
                         else Inl ''WebLLM Worker not initialized'')"
  by (cases r) (simp_all add: extractJobData_def)

lemma extractJobDataNode_fields [simp]:
  "knownApplications (extractJobDataNode i sc st) = knownApplications st"
  "isJobRelated (extractJobDataNode i sc st) = isJobRelated st"
  "isFirstInstance (extractJobDataNode i sc st) = isFirstInstance st"
  "applicationStatus (extractJobDataNode i sc st) = applicationStatus st"
  "email (extractJobDataNode i sc st) = email st"
  "jobData (extractJobDataNode i sc st) =
     (if i then (case extract_reply sc of Resolved v \<Rightarrow> v | Rejected e \<Rightarrow> JNull) else JNull)"
  "errors (extractJobDataNode i sc st) =
     errors st @ (if i then [] else [''Job data extraction failed: WebLLM Worker not initialized''])"
  "map fst (calls (extractJobDataNode i sc st)) = map fst (calls st) @ [OpExtract]"
  by (simp_all add: extractJobDataNode_def extractJobData_cases Let_def)

lemma checkFirstInstanceNode_fields [simp]:
  "isJobRelated (checkFirstInstanceNode st) = isJobRelated st"
  "jobData (checkFirstInstanceNode st) = jobData st"
  "applicationStatus (checkFirstInstanceNode st) = applicationStatus st"
  "email (checkFirstInstanceNode st) = email st"
  "errors (checkFirstInstanceNode st) = errors st"
  "calls (checkFirstInstanceNode st) = calls st"
  by (simp_all add: checkFirstInstanceNode_def Let_def split: option.split)

lemma determineStatus_cases:
  "determineStatus i r = (if i then Inr (case r of Resolved v \<Rightarrow> validated v | Rejected e \<Rightarrow> ''pending'')
                         else Inl ''WebLLM Worker not initialized'')"
  by (cases r) (simp_all add: determineStatus_def)

lemma determineStatusNode_fields [simp]:
  "isJobRelated (determineStatusNode i sc st) = isJobRelated st"
  "jobData (determineStatusNode i sc st) = jobData st"
  "isFirstInstance (determineStatusNode i sc st) = isFirstInstance st"
  "email (determineStatusNode i sc st) = email st"
  "applicationStatus (determineStatusNode i sc st) =
     Some (if i then (case status_reply sc of Resolved v \<Rightarrow> validated v | Rejected e \<Rightarrow> ''pending'')
           else ''unknown'')"
  "knownApplications (determineStatusNode i sc st) =
     (if i then updateStatusHistory (jobData st)
                 (case status_reply sc of Resolved v \<Rightarrow> validated v | Rejected e \<Rightarrow> ''pending'')
                 (knownApplications st)
      else knownApplications st)"
  "errors (determineStatusNode i sc st) =
     errors st @ (if i then [] else [''Status determination failed: WebLLM Worker not initialized''])"
  "map fst (calls (determineStatusNode i sc st)) = map fst (calls st) @ [OpStatus]"
  by (simp_all add: determineStatusNode_def determineStatus_cases Let_def)

lemma updateStatusHistory_falsy: "\<not> truthy jd \<Longrightarrow> updateStatusHistory jd st apps = apps"
  by (simp add: updateStatusHistory_def)

lemma checkFirstInstanceNode_skip:
  assumes "\<not> truthy (jobData state) \<or> \<not> strTruthy (prop_company_name (jobData state))"
  shows "isFirstInstance (checkFirstInstanceNode state) = Some False \<and>
         knownApplications (checkFirstInstanceNode state) = knownApplications state"
  using assms by (auto simp: checkFirstInstanceNode_def)

lemma classify_True_initialized: "classify i r = Inr True \<Longrightarrow> i"
  by (simp add: classify_cases split: if_splits)

lemma invoke_falsy_extraction:
  assumes "\<not> truthy (jobData (fst (invoke i sc (initialState em known))))"
  shows "knownApplications (fst (invoke i sc (initialState em known))) = known \<and>
         boolOrFalse (isFirstInstance (fst (invoke i sc (initialState em known)))) = False"
proof (cases "classify i (classify_reply sc) = Inr True")
  case False
  then show ?thesis
    by (simp add: invoke_def finalizeResultNode_def Let_def initialState_def)
next
  case True
  then have i: "i" by (rule classify_True_initialized)
  let ?x = "extractJobDataNode i sc (classifyEmailNode i sc (initialState em known))"
  from True assms have f: "\<not> truthy (jobData ?x)"
    by (simp add: invoke_def finalizeResultNode_def Let_def)
  then have "knownApplications (checkFirstInstanceNode ?x) = known"
    and "isFirstInstance (checkFirstInstanceNode ?x) = Some False"
    using checkFirstInstanceNode_skip [of ?x] by (simp_all add: initialState_def)
  moreover have "updateStatusHistory (jobData ?x) s apps = apps" for s apps
    using f by (rule updateStatusHistory_falsy)
  ultimately show ?thesis using True i
    by (simp add: invoke_def finalizeResultNode_def Let_def)
qed

lemma newEntry_fields [simp]:
  "first_seen (newEntry jd d) = d"
  "status_history (newEntry jd d) = Some [''applied'']"
  "email_count (newEntry jd d) = Some 1"
  "current_status (newEntry jd d) = None"
  by (cases jd; simp)+








lemma invoke_not_job:
  "classify i (classify_reply sc) \<noteq> Inr True \<Longrightarrow>
   invoke i sc st = (classifyEmailNode i sc st, finalize_save sc)"
  by (simp add: invoke_def finalizeResultNode_def Let_def)

lemma invoke_job:
  "classify i (classify_reply sc) = Inr True \<Longrightarrow>
   invoke i sc st =
     (determineStatusNode i sc (checkFirstInstanceNode (extractJobDataNode i sc (classifyEmailNode i sc st))),
      finalize_save sc)"
  by (simp add: invoke_def finalizeResultNode_def Let_def)

lemma classifyEmailNode_stage:
  "classify i (classify_reply sc) \<noteq> Inr True \<Longrightarrow>
   processingStage (classifyEmailNode i sc st) = ''finalizeResult''"
  by (cases i) (auto simp: classifyEmailNode_def classify_cases Let_def)

lemma determineStatusNode_stage [simp]:
  "processingStage (determineStatusNode i sc st) = ''finalizeResult''"
  by (simp add: determineStatusNode_def determineStatus_cases Let_def)

lemma invoke_stage: "processingStage (fst (invoke i sc st)) = ''finalizeResult''"
  by (cases "classify i (classify_reply sc) = Inr True")
     (simp_all add: invoke_job invoke_not_job classifyEmailNode_stage)

lemma processEmail_not_job:
  assumes "classify i (classify_reply sc) \<noteq> Inr True"
  shows "isJobRelatedR (fst (processEmail i known (em, sc))) = False"
    and "fst (snd (processEmail i known (em, sc))) = known"
    and "map fst (snd (snd (processEmail i known (em, sc)))) = [OpClassify]"
    and "finalize_save sc = None \<Longrightarrow> driver_save sc = None \<Longrightarrow>
         processingErrors (fst (processEmail i known (em, sc))) =
           (if i then [] else [''Classification failed: WebLLM Worker not initialized''])"
  using assms
  by (auto simp: processEmail_def invoke_not_job Let_def pushedResult_def errorResult_def
        initialState_def split: option.split)








lemma agree_steps:
  "agree st st' \<Longrightarrow> agree (announceBatch b st) (announceBatch b st')"
  "agree st st' \<Longrightarrow> agree (publishResults outs cs st) (publishResults outs cs st')"
  "agree st st' \<Longrightarrow> agree (recordFailure b e st) (recordFailure b e st')"
  by (simp_all add: agree_def announceBatch_def publishResults_def recordFailure_def)

lemma drop_take_chunk: "drop b (take (b + b * n) xs) = take (b * n) (drop b xs)"
  by (simp add: drop_take)

lemma take_take_chunk: "take b (take (b + b * n) xs) = take b xs"
  by (simp add: min_def)

lemma batch_size_pos: "WEBLLM_BATCH_SIZE \<noteq> 0"
  by (simp add: WEBLLM_BATCH_SIZE_def)

lemma aiLoop_cancel:
  assumes "\<forall>j<N. \<not> aborted (k + j)" and "aborted (k + N)"
    and "WEBLLM_BATCH_SIZE * N < length emails"
    and "agree st st'"
  shows "fst (aiLoop gt i aborted load k emails st) =
           (case fst (aiLoop gt i (\<lambda>k. False) load k (take (WEBLLM_BATCH_SIZE * N) emails) st') of
              None \<Rightarrow> Some (JsError ''Error'' ''Operation cancelled'')
            | Some e \<Rightarrow> Some e) \<and>
         agree (snd (aiLoop gt i aborted load k emails st))
               (snd (aiLoop gt i (\<lambda>k. False) load k (take (WEBLLM_BATCH_SIZE * N) emails) st'))"
  using assms
proof (induction N arbitrary: k emails st st')
  case 0
  then have "emails \<noteq> []" by auto
  with 0 show ?case
    by (simp add: aiLoop.simps [of gt i aborted load k emails st]
                  aiLoop.simps [of gt i "\<lambda>k. False" load k "[]" st'])
next
  case (Suc N)
  let ?B = WEBLLM_BATCH_SIZE
  let ?pre = "take (?B * Suc N) emails"
  from Suc.prems have ne: "emails \<noteq> []" and na: "\<not> aborted k"
    by (auto dest: spec [of _ 0])
  from Suc.prems have ne': "?pre \<noteq> []"
    by (auto simp: WEBLLM_BATCH_SIZE_def)
  have ab: "\<forall>j<N. \<not> aborted (k + 1 + j)" "aborted (k + 1 + N)"
    using Suc.prems(1,2) by (auto dest: spec [of _ "Suc _"])
  have len: "?B * N < length (drop ?B emails)"
    using Suc.prems(3) by simp
  note ih = Suc.IH [OF ab len]
  note ag = agree_steps(1) [OF Suc.prems(4), of "k + 1"]
  show ?case
  proof (cases "processEmailsChronologically gt i (load k) (take ?B emails)")
    case (Inr r)
    obtain outs reg cs where r: "r = (outs, reg, cs)"
      by (cases r) auto
    have l: "aiLoop gt i aborted load k emails st =
             aiLoop gt i aborted load (k + 1) (drop ?B emails)
               (publishResults outs cs (announceBatch (k + 1) st))"
      by (subst aiLoop.simps) (simp add: ne na Inr r Let_def)
    have p: "aiLoop gt i (\<lambda>k. False) load k ?pre st' =
             aiLoop gt i (\<lambda>k. False) load (k + 1) (take (?B * N) (drop ?B emails))
               (publishResults outs cs (announceBatch (k + 1) st'))"
      by (subst aiLoop.simps) (simp add: ne batch_size_pos Inr r Let_def take_take_chunk drop_take_chunk)
    show ?thesis
      unfolding l p by (rule ih) (rule agree_steps(2) [OF ag])
  next
    case (Inl e)
    show ?thesis
    proof (cases "errName e = ''AbortError''")
      case True
      have l: "aiLoop gt i aborted load k emails st = (Some e, announceBatch (k + 1) st)"
        by (subst aiLoop.simps) (simp add: ne na Inl True Let_def)
      have p: "aiLoop gt i (\<lambda>k. False) load k ?pre st' = (Some e, announceBatch (k + 1) st')"
        by (subst aiLoop.simps) (simp add: ne batch_size_pos Inl True Let_def take_take_chunk)
      show ?thesis
        unfolding l p using ag by simp
    next
      case False
      have l: "aiLoop gt i aborted load k emails st =
               aiLoop gt i aborted load (k + 1) (drop ?B emails)
                 (recordFailure (k + 1) e (announceBatch (k + 1) st))"
        by (subst aiLoop.simps) (simp add: ne na Inl False Let_def)
      have p: "aiLoop gt i (\<lambda>k. False) load k ?pre st' =
               aiLoop gt i (\<lambda>k. False) load (k + 1) (take (?B * N) (drop ?B emails))
                 (recordFailure (k + 1) e (announceBatch (k + 1) st'))"
        by (subst aiLoop.simps) (simp add: ne batch_size_pos Inl False Let_def take_take_chunk drop_take_chunk)
      show ?thesis
        unfolding l p by (rule ih) (rule agree_steps(3) [OF ag])
    qed
  qed
qed

lemma aiLoop_boundaries_only:
  assumes "\<forall>j. WEBLLM_BATCH_SIZE * j < length emails \<longrightarrow> aborted (k + j) = aborted' (k + j)"
  shows "aiLoop gt i aborted load k emails st = aiLoop gt i aborted' load k emails st"
  using assms
proof (induction "length emails" arbitrary: k emails st rule: less_induct)
  case less
  let ?B = WEBLLM_BATCH_SIZE
  show ?case
  proof (cases "emails = []")
    case True
    then show ?thesis
      by (simp add: aiLoop.simps [of gt i _ load k "[]" st])
  next
    case False
    then have k: "aborted k = aborted' k"
      using less.prems by (auto dest: spec [of _ 0])
    have shorter: "length (drop ?B emails) < length emails"
      using False by (simp add: WEBLLM_BATCH_SIZE_def)
    have rest: "\<forall>j. ?B * j < length (drop ?B emails) \<longrightarrow> aborted (Suc k + j) = aborted' (Suc k + j)"
    proof (intro allI impI)
      fix j assume "?B * j < length (drop ?B emails)"
      then have "?B * Suc j < length emails" by simp
      with less.prems have "aborted (k + Suc j) = aborted' (k + Suc j)" by blast
      then show "aborted (Suc k + j) = aborted' (Suc k + j)" by simp
    qed
    note ih = less.hyps [OF shorter rest]
    show ?thesis
      by (simp add: aiLoop.simps [of gt i aborted load k emails st]
                    aiLoop.simps [of gt i aborted' load k emails st]
                    False k ih Let_def split: sum.split prod.split)
  qed
qed

lemma aiLoop_completes:
  assumes "\<forall>k e. load k = Inl e \<longrightarrow> errName e \<noteq> ''AbortError''"
  shows "fst (aiLoop gt i (\<lambda>k. False) load k emails st) = None"
proof (induction "length emails" arbitrary: k emails st rule: less_induct)
  case less
  show ?case
  proof (cases "emails = []")
    case True
    then show ?thesis
      by (simp add: aiLoop.simps [of gt i _ load k "[]" st])
  next
    case False
    then have shorter: "length (drop WEBLLM_BATCH_SIZE emails) < length emails"
      by (simp add: WEBLLM_BATCH_SIZE_def)
    note ih = less.hyps [OF shorter]
    have fail: "errName e \<noteq> ''AbortError''"
      if "processEmailsChronologically gt i (load k) (take WEBLLM_BATCH_SIZE emails) = Inl e" for e
      using that assms by (cases "load k") (auto simp: processEmailsChronologically_def)
    show ?thesis
      by (simp add: aiLoop.simps [of gt i "\<lambda>k. False" load k emails st]
                    False ih fail Let_def split: sum.split prod.split)
  qed
qed

lemma chanInv_new: "chanInv (newChannel w)"
  by (simp add: chanInv_def newChannel_def resolutions_def)

lemma chanInv_postMessage:
  assumes "chanInv ch"
  shows "chanInv (postMessage message generated ch)"
proof (cases "worker ch")
  case False
  with assms show ?thesis
    unfolding chanInv_def postMessage_def Let_def
    by (auto simp: less_Suc_eq resolutions_def)
next
  case True
  let ?mid = "if msg_id message \<noteq> [] then msg_id message else generated"
  let ?n = "nextRequest ch"
  have fresh: "timers ch ?n = None" "resolutions ?n ch = 0"
    using assms unfolding chanInv_def by auto
  have p: "postMessage message generated ch =
           ch\<lparr>pendingRequests := AList.update ?mid ?n (pendingRequests ch),
              timers := (timers ch)(?n \<mapsto> ?mid),
              posted := posted ch @ [message\<lparr>msg_id := ?mid\<rparr>],
              nextRequest := ?n + 1\<rparr>"
    using True by (simp add: postMessage_def Let_def)
  show ?thesis
    unfolding p using assms fresh unfolding chanInv_def
    by (auto simp: distinct_update update_conv' less_Suc_eq resolutions_def)
qed

lemma chanInv_settle_entry:
  assumes inv: "chanInv ch" and armed: "timers ch n = Some i"
  shows "chanInv (ch\<lparr>pendingRequests := AList.delete i (pendingRequests ch),
                     timers := (timers ch)(n := None),
                     settled := settled ch @ [(n, s)]\<rparr>)"
proof -
  from inv armed have n: "n < nextRequest ch" "resolutions n ch = 0"
    unfolding chanInv_def by auto
  have other: "m \<noteq> n" if "map_of (pendingRequests ch) j = Some m" "j \<noteq> i" for j m
    using that inv armed unfolding chanInv_def by auto
  show ?thesis
    using inv n other unfolding chanInv_def
    by (auto simp: distinct_delete delete_conv' resolutions_def)
qed

lemma chanInv_handleWorkerMessage:
  assumes "chanInv ch"
  shows "chanInv (handleWorkerMessage resp ch)"
proof (cases "resp_progress resp")
  case (Some p)
  with assms show ?thesis
    by (cases p) (simp add: handleWorkerMessage_def chanInv_def resolutions_def)
next
  case None
  show ?thesis
  proof (cases "map_of (pendingRequests ch) (resp_id resp)")
    case N: None
    with None assms show ?thesis
      by (simp add: handleWorkerMessage_def chanInv_def resolutions_def)
  next
    case (Some n)
    with assms have "timers ch n = Some (resp_id resp)"
      unfolding chanInv_def by blast
    from chanInv_settle_entry [OF assms this] None Some show ?thesis
      by (simp add: handleWorkerMessage_def)
  qed
qed

lemma chanInv_timerFires:
  assumes "chanInv ch"
  shows "chanInv (timerFires n ch)"
proof (cases "timers ch n")
  case None
  with assms show ?thesis by (simp add: timerFires_def)
next
  case (Some i)
  from chanInv_settle_entry [OF assms Some] Some show ?thesis
    by (simp add: timerFires_def)
qed

lemma rejectEach_fields:
  "timers (rejectEach err ps ch) = (\<lambda>m. if m \<in> snd ` set ps then None else timers ch m)"
  "settled (rejectEach err ps ch) = settled ch @ map (\<lambda>p. (snd p, Failed err)) ps"
  "nextRequest (rejectEach err ps ch) = nextRequest ch"
  "pendingRequests (rejectEach err ps ch) = pendingRequests ch"
  by (induction ps arbitrary: ch; auto)+

lemma resolutions_rejectEach:
  assumes "distinct (map snd ps)"
  shows "resolutions n (rejectEach err ps ch) =
           resolutions n ch + (if n \<in> snd ` set ps then 1 else 0)"
proof -
  have "length (filter (\<lambda>p. fst p = n) (map (\<lambda>p. (snd p, Failed err)) ps)) =
          (if n \<in> snd ` set ps then 1 else 0)"
    using assms by (induction ps) (auto simp: image_iff)
  then show ?thesis
    by (simp add: resolutions_def rejectEach_fields)
qed

lemma chanInv_numbers_distinct:
  assumes "chanInv ch"
  shows "distinct (map snd (pendingRequests ch))"
proof -
  have d: "distinct (map fst (pendingRequests ch))"
    using assms by (simp add: chanInv_def)
  have "inj_on snd (set (pendingRequests ch))"
  proof (rule inj_onI)
    fix p q assume p: "p \<in> set (pendingRequests ch)" and q: "q \<in> set (pendingRequests ch)"
      and e: "snd p = snd q"
    from d p have "map_of (pendingRequests ch) (fst p) = Some (snd p)" by simp
    with assms have tp: "timers ch (snd p) = Some (fst p)" unfolding chanInv_def by blast
    from d q have "map_of (pendingRequests ch) (fst q) = Some (snd q)" by simp
    with assms have "timers ch (snd q) = Some (fst q)" unfolding chanInv_def by blast
    with tp e have "fst p = fst q" by simp
    with e show "p = q" by (simp add: prod_eq_iff)
  qed
  moreover have "distinct (pendingRequests ch)"
    using d by (simp add: distinct_map)
  ultimately show ?thesis
    by (simp add: distinct_map)
qed

lemma chanInv_rejectAllPending:
  assumes "chanInv ch"
  shows "chanInv (rejectAllPending err ch)"
proof -
  let ?ps = "pendingRequests ch"
  have d: "distinct (map fst ?ps)"
    using assms by (simp add: chanInv_def)
  have armed: "timers ch m \<noteq> None \<and> m < nextRequest ch \<and> resolutions m ch = 0"
    if "m \<in> snd ` set ?ps" for m
  proof -
    from that obtain i where "(i, m) \<in> set ?ps" by auto
    with d have "map_of ?ps i = Some m" by simp
    with assms have "timers ch m = Some i" unfolding chanInv_def by blast
    with assms show ?thesis unfolding chanInv_def by auto
  qed
  note r = resolutions_rejectEach [OF chanInv_numbers_distinct [OF assms], of _ err ch]
  have res: "resolutions n (rejectAllPending err ch) =
               resolutions n ch + (if n \<in> snd ` set ?ps then 1 else 0)" for n
    using r [of n] by (simp add: rejectAllPending_def resolutions_def)
  have tm: "timers (rejectAllPending err ch) =
              (\<lambda>m. if m \<in> snd ` set ?ps then None else timers ch m)"
    by (simp add: rejectAllPending_def rejectEach_fields)
  have nx: "nextRequest (rejectAllPending err ch) = nextRequest ch"
    and pd: "pendingRequests (rejectAllPending err ch) = []"
    by (simp_all add: rejectAllPending_def rejectEach_fields)
  have c: "\<forall>n. timers ch n \<noteq> None \<longrightarrow> n < nextRequest ch \<and> resolutions n ch = 0"
    and e: "\<forall>n. n < nextRequest ch \<longrightarrow> timers ch n = None \<longrightarrow> resolutions n ch = 1"
    and f: "\<forall>n. nextRequest ch \<le> n \<longrightarrow> resolutions n ch = 0"
    using assms unfolding chanInv_def by blast+
  show ?thesis
    unfolding chanInv_def res tm nx pd
  proof (intro conjI allI impI)
    fix n assume "(if n \<in> snd ` set ?ps then None else timers ch n) \<noteq> None"
    then have "n \<notin> snd ` set ?ps" "timers ch n \<noteq> None"
      by (auto split: if_splits)
    with c show "n < nextRequest ch"
      and "resolutions n ch + (if n \<in> snd ` set ?ps then 1 else 0) = 0"
      by auto
  next
    fix n assume n: "n < nextRequest ch"
      and "(if n \<in> snd ` set ?ps then None else timers ch n) = None"
    then consider "n \<in> snd ` set ?ps" | "n \<notin> snd ` set ?ps" "timers ch n = None"
      by (auto split: if_splits)
    then show "resolutions n ch + (if n \<in> snd ` set ?ps then 1 else 0) = 1"
    proof cases
      case 1
      with armed [of n] show ?thesis by simp
    next
      case 2
      with e n show ?thesis by simp
    qed
  next
    fix n assume n: "nextRequest ch \<le> n"
    then have "n \<notin> snd ` set ?ps"
      using armed [of n] by auto
    with f n show "resolutions n ch + (if n \<in> snd ` set ?ps then 1 else 0) = 0"
      by simp
  qed simp_all
qed

lemma chanInv_terminate:
  assumes "chanInv ch"
  shows "chanInv (terminate ch)"
proof (cases "worker ch")
  case False
  with assms show ?thesis by (simp add: terminate_def)
next
  case True
  have "chanInv (ch\<lparr>worker := False,
              posted := posted ch @ [\<lparr>msg_id = ''terminate'', msg_type = ''terminate'', prompt = None\<rparr>]\<rparr>)"
    using assms by (simp add: chanInv_def resolutions_def)
  from chanInv_rejectAllPending [OF this] True show ?thesis
    by (simp add: terminate_def)
qed

lemma chanInv_step: "chanInv ch \<Longrightarrow> chanInv (step ev ch)"
  by (cases ev)
     (simp_all add: chanInv_postMessage chanInv_handleWorkerMessage chanInv_timerFires
        chanInv_rejectAllPending chanInv_terminate)

lemma chanInv_run: "chanInv ch \<Longrightarrow> chanInv (run evs ch)"
  unfolding run_def by (induction evs arbitrary: ch) (simp_all add: chanInv_step)

lemma settled_stays_step:
  assumes "chanInv ch" "n < nextRequest ch" "timers ch n = None"
  shows "n < nextRequest (step ev ch) \<and> timers (step ev ch) n = None"
proof (cases ev)
  case (Post message generated)
  with assms show ?thesis
    by (auto simp: postMessage_def Let_def)
next
  case (Message resp)
  with assms show ?thesis
    by (auto simp: handleWorkerMessage_def split: option.split)
next
  case (TimerFires m)
  with assms show ?thesis
    by (auto simp: timerFires_def split: option.split)
next
  case (WorkerError msg)
  with assms show ?thesis
    by (simp add: rejectAllPending_def rejectEach_fields)
next
  case Terminate
  with assms show ?thesis
    by (simp add: terminate_def rejectAllPending_def rejectEach_fields)
qed

lemma settled_stays_run:
  assumes "chanInv ch" "n < nextRequest ch" "timers ch n = None"
  shows "n < nextRequest (run evs ch) \<and> timers (run evs ch) n = None"
  using assms unfolding run_def
proof (induction evs arbitrary: ch)
  case Nil
  then show ?case by simp
next
  case (Cons ev evs)
  from settled_stays_step [OF Cons.prems, of ev] chanInv_step [OF Cons.prems(1), of ev]
  show ?case using Cons.IH [of "step ev ch"] by simp
qed

text \<open>Unfolding a run on concrete inputs.\<close>

lemmas run_defs = processEmail_def invoke_def finalizeResultNode_def determineStatusNode_def
  checkFirstInstanceNode_def extractJobDataNode_def classifyEmailNode_def initialState_def
  pushedResult_def errorResult_def classify_def extractJobData_def determineStatus_def
  updateStatusHistory_def appKey_def validStatuses_def Let_def

lemmas channel_defs = run_def newChannel_def postMessage_def handleWorkerMessage_def timerFires_def
  rejectAllPending_def terminate_def resolutions_def Let_def

section \<open>Properties of the adapter\<close>

text \<open>
  C10. On an initialised adapter, classify returns true exactly when the request was
  resolved with the boolean true or with the string "YES"; every other resolved value
  (the lowercase "yes", a string that only contains YES, a number, an object, ...) and
  every rejected request give false.
\<close>

theorem classify_true_iff:
  "classify True r = Inr (r = Resolved (JBool True) \<or> r = Resolved (JStr ''YES''))"
  by (cases r) (simp_all add: classify_def)


theorem classify_true_iff_witness:
  "classify True (Resolved (JStr ''YES'')) = Inr True \<and>
   classify True (Resolved (JBool True)) = Inr True \<and>
   classify True (Resolved (JStr ''yes'')) = Inr False \<and>
   classify True (Resolved (JStr ''YES, it is'')) = Inr False \<and>
   classify True (Rejected ''Request classify_1 timed out'') = Inr False"
  using classify_true_iff [of "Resolved (JStr ''YES'')"]
        classify_true_iff [of "Resolved (JBool True)"]
        classify_true_iff [of "Resolved (JStr ''yes'')"]
        classify_true_iff [of "Resolved (JStr ''YES, it is'')"]
        classify_true_iff [of "Rejected ''Request classify_1 timed out''"]
  by simp

section \<open>Properties of the pipeline stages\<close>

text \<open>
  C8. When the extraction result is null (or any falsy value), or the extracted record
  has no truthy company name, CheckFirstInstance sets is_first_instance to false and
  leaves the registry exactly as it was: no entry is created and no entry changes.
  When the extraction result is falsy, the whole per-email run leaves the registry as it
  was and reports is_first_instance false.
\<close>

theorem checkFirstInstance_without_company:
  "(\<not> truthy (jobData state) \<or> \<not> strTruthy (prop_company_name (jobData state)) \<longrightarrow>
      isFirstInstance (checkFirstInstanceNode state) = Some False \<and>
      knownApplications (checkFirstInstanceNode state) = knownApplications state) \<and>
   (\<not> truthy (jobData (fst (invoke i sc (initialState em known)))) \<longrightarrow>
      knownApplications (fst (invoke i sc (initialState em known))) = known \<and>
      boolOrFalse (isFirstInstance (fst (invoke i sc (initialState em known)))) = False)"
proof (intro conjI impI)
  assume "\<not> truthy (jobData state) \<or> \<not> strTruthy (prop_company_name (jobData state))"
  then show "isFirstInstance (checkFirstInstanceNode state) = Some False"
    and "knownApplications (checkFirstInstanceNode state) = knownApplications state"
    using checkFirstInstanceNode_skip [of state] by simp_all
next
  assume falsy: "\<not> truthy (jobData (fst (invoke i sc (initialState em known))))"
  show "knownApplications (fst (invoke i sc (initialState em known))) = known"
    using invoke_falsy_extraction [OF falsy] by simp
  show "boolOrFalse (isFirstInstance (fst (invoke i sc (initialState em known)))) = False"
    using invoke_falsy_extraction [OF falsy] by simp
qed


theorem checkFirstInstance_without_company_witness:
  "\<not> strTruthy (prop_company_name (JObj \<lparr>company_name = None, job_title = Some ''Engineer'', other_fields = []\<rparr>)) \<and>
   isFirstInstance (checkFirstInstanceNode
     ((initialState (mail ''m1'' ''2024-01-01'') [''Acme_Engineer'' \<mapsto> newEntry acmeEngineer ''2023-12-01''])
        \<lparr>jobData := JObj \<lparr>company_name = None, job_title = Some ''Engineer'', other_fields = []\<rparr>\<rparr>)) = Some False \<and>
   knownApplications (checkFirstInstanceNode
     ((initialState (mail ''m1'' ''2024-01-01'') [''Acme_Engineer'' \<mapsto> newEntry acmeEngineer ''2023-12-01''])
        \<lparr>jobData := JObj \<lparr>company_name = None, job_title = Some ''Engineer'', other_fields = []\<rparr>\<rparr>))
     = [''Acme_Engineer'' \<mapsto> newEntry acmeEngineer ''2023-12-01''] \<and>
   knownApplications (fst (invoke True (answers (JBool True) JNull (JStr ''applied''))
     (initialState (mail ''m1'' ''2024-01-01'') [''Acme_Engineer'' \<mapsto> newEntry acmeEngineer ''2023-12-01''])))
     = [''Acme_Engineer'' \<mapsto> newEntry acmeEngineer ''2023-12-01'']"
  using checkFirstInstance_without_company
    [of "(initialState (mail ''m1'' ''2024-01-01'') [''Acme_Engineer'' \<mapsto> newEntry acmeEngineer ''2023-12-01''])
          \<lparr>jobData := JObj \<lparr>company_name = None, job_title = Some ''Engineer'', other_fields = []\<rparr>\<rparr>"
        True "answers (JBool True) JNull (JStr ''applied'')" "mail ''m1'' ''2024-01-01''"
        "[''Acme_Engineer'' \<mapsto> newEntry acmeEngineer ''2023-12-01'']"]
  by (simp add: initialState_def invoke_job classify_cases answers_def)









text \<open>
  C6 (as amended). When classification fails inside the adapter (the request is rejected,
  or it is resolved with anything but true or "YES"), classify returns false without
  throwing: the run goes from Classify directly to Finalize with isJobRelated = false,
  only the classify operation is invoked, the registry is untouched, and no error is
  recorded for the email (its error list is empty when both saves succeed). An error
  "Classification failed: ..." is recorded only when classify throws because the adapter
  is not initialised; then, too, only the classify operation is invoked.
\<close>

theorem classification_failure_short_circuits:
  assumes fail: "classify_reply sc = Rejected e \<or>
                 (classify_reply sc = Resolved v \<and> v \<noteq> JBool True \<and> v \<noteq> JStr ''YES'')"
  shows "isJobRelatedR (fst (processEmail True known (em, sc))) = False \<and>
         processingStage (fst (invoke True sc (initialState em known))) = ''finalizeResult'' \<and>
         map fst (snd (snd (processEmail True known (em, sc)))) = [OpClassify] \<and>
         fst (snd (processEmail True known (em, sc))) = known \<and>
         (finalize_save sc = None \<and> driver_save sc = None \<longrightarrow>
            processingErrors (fst (processEmail True known (em, sc))) = []) \<and>
         map fst (snd (snd (processEmail False known (em, sc)))) = [OpClassify] \<and>
         (finalize_save sc = None \<and> driver_save sc = None \<longrightarrow>
            processingErrors (fst (processEmail False known (em, sc))) =
              [''Classification failed: WebLLM Worker not initialized''])"
proof -
  from fail have no: "classify True (classify_reply sc) \<noteq> Inr True"
    by (auto simp: classify_cases)
  have un: "classify False (classify_reply sc) \<noteq> Inr True"
    by (simp add: classify_cases)
  show ?thesis
    using processEmail_not_job [OF no, of known em] processEmail_not_job [OF un, of known em]
    by (simp add: invoke_stage)
qed


theorem classification_failure_short_circuits_witness:
  "isJobRelatedR (fst (processEmail True Map.empty
      (mail ''m1'' ''2024-01-01'', answers (JStr ''yes'') acmeEngineer (JStr ''applied'')))) = False \<and>
   map fst (snd (snd (processEmail True Map.empty
      (mail ''m1'' ''2024-01-01'', answers (JStr ''yes'') acmeEngineer (JStr ''applied''))))) = [OpClassify] \<and>
   processingErrors (fst (processEmail True Map.empty
      (mail ''m1'' ''2024-01-01'', answers (JStr ''yes'') acmeEngineer (JStr ''applied'')))) = [] \<and>
   processingErrors (fst (processEmail False Map.empty
      (mail ''m1'' ''2024-01-01'', answers (JStr ''yes'') acmeEngineer (JStr ''applied'')))) =
     [''Classification failed: WebLLM Worker not initialized'']"
  using classification_failure_short_circuits
    [of "answers (JStr ''yes'') acmeEngineer (JStr ''applied'')" "''''" "JStr ''yes''"
        Map.empty "mail ''m1'' ''2024-01-01''"]
  by (simp add: answers_def)

theorem classification_failure_no_error_counterexample:
  "isJobRelatedR (fst (processEmail True Map.empty
      (mail ''m1'' ''2024-01-01'',
       (answers JNull JNull JNull)\<lparr>classify_reply := Rejected ''Worker error: out of memory''\<rparr>))) = False \<and>
   processingErrors (fst (processEmail True Map.empty
      (mail ''m1'' ''2024-01-01'',
       (answers JNull JNull JNull)\<lparr>classify_reply := Rejected ''Worker error: out of memory''\<rparr>))) = []"
  by (simp add: run_defs mail_def answers_def acmeEngineer_def)

text \<open>
  C5 (as amended). The application key is a deterministic function of the extracted
  company name and title that keeps their case: the company name, an underscore, and the
  title, with "unknown" for a missing or empty title. In the two-email Acme/Engineer
  scenario the outcomes report is_first_instance true, then false; the entry is stored
  under the key Acme_Engineer (nothing is stored under acme_engineer) with email_count 2
  and status_history ["applied", "applied", "interview_scheduled"]: the "applied" written
  when the entry is created, followed by the status determined for each of the two emails.
\<close>

theorem acme_scenario_key:
  "appKey (JObj \<lparr>company_name = Some c, job_title = t, other_fields = fs\<rparr>) =
     c @ ''_'' @ orElse t ''unknown'' \<and>
   (case processEmailsChronologically epochMs True (Inr Map.empty) acmeScenario of
      Inl e \<Rightarrow> False
    | Inr (outs, reg, cs) \<Rightarrow>
        map isFirstInstanceR outs = [True, False] \<and>
        reg ''acme_engineer'' = None \<and>
        map_option email_count (reg ''Acme_Engineer'') = Some (Some 2) \<and>
        map_option status_history (reg ''Acme_Engineer'') =
          Some (Some [''applied'', ''applied'', ''interview_scheduled'']))"
  by (simp add: processEmailsChronologically_def sortedEmails_def acmeScenario_def epochMs_def run_defs mail_def answers_def acmeEngineer_def)

theorem acme_scenario_key_witness:
  "appKey (JObj \<lparr>company_name = Some ''Acme'', job_title = None, other_fields = []\<rparr>) = ''Acme_unknown'' \<and>
   appKey (JObj \<lparr>company_name = Some ''Acme'', job_title = Some ''Engineer'', other_fields = []\<rparr>) =
     ''Acme_Engineer''"
  using acme_scenario_key [of "''Acme''" None "[]"]
        acme_scenario_key [of "''Acme''" "Some ''Engineer''" "[]"]
  by simp

theorem acme_scenario_key_counterexample:
  "specKey acmeEngineer = ''acme_engineer'' \<and>
   appKey acmeEngineer \<noteq> specKey acmeEngineer \<and>
   (case processEmailsChronologically epochMs True (Inr Map.empty) acmeScenario of
      Inl e \<Rightarrow> False
    | Inr (outs, reg, cs) \<Rightarrow>
        reg ''acme_engineer'' = None \<and>
        map_option status_history (reg ''Acme_Engineer'') \<noteq>
          Some (Some [''applied'', ''interview_scheduled'']))"
  by (simp add: processEmailsChronologically_def sortedEmails_def acmeScenario_def epochMs_def run_defs mail_def answers_def acmeEngineer_def
        specKey_def caseNormalized_def lowerCase_def)

section \<open>Properties of the batch driver\<close>







section \<open>Properties of the chunked driver\<close>

text \<open>
  C9 (as amended). If the cancellation signal is first seen set at the chunk boundary
  after chunk N (no boundary before it saw it set, and a further chunk remains),
  processEmailsWithAI starts no further chunk and invokes no further adapter operation,
  and it does not return: it throws Error("Operation cancelled"), with no Cancelled marker
  on any outcome. What it has accumulated and published in the progress state are exactly
  the outcomes of the run over chunks 1 to N alone, and its trace of adapter operations is
  that run's trace. (Should the run over chunks 1 to N itself stop with an AbortError from
  a registry load, the cancelled run stops with the same error.) The signal is read only
  at chunk boundaries: a signal that is not set at any boundary before a chunk changes
  nothing, whenever else it may be set.
\<close>

theorem cancellation_between_chunks:
  assumes "\<forall>k<N. \<not> aborted k" and "aborted N"
    and "WEBLLM_BATCH_SIZE * N < length emails"
  shows "fst (processEmailsWithAI gt i aborted load emails prev) =
           (case fst (processEmailsWithAI gt i (\<lambda>k. False) load (take (WEBLLM_BATCH_SIZE * N) emails) prev) of
              None \<Rightarrow> Some (JsError ''Error'' ''Operation cancelled'')
            | Some e \<Rightarrow> Some e) \<and>
         ((\<forall>k e. load k = Inl e \<longrightarrow> errName e \<noteq> ''AbortError'') \<longrightarrow>
            fst (processEmailsWithAI gt i aborted load emails prev) =
              Some (JsError ''Error'' ''Operation cancelled'')) \<and>
         acc (snd (processEmailsWithAI gt i aborted load emails prev)) =
           acc (snd (processEmailsWithAI gt i (\<lambda>k. False) load (take (WEBLLM_BATCH_SIZE * N) emails) prev)) \<and>
         results (progress (snd (processEmailsWithAI gt i aborted load emails prev))) =
           results (progress (snd (processEmailsWithAI gt i (\<lambda>k. False) load (take (WEBLLM_BATCH_SIZE * N) emails) prev))) \<and>
         trace (snd (processEmailsWithAI gt i aborted load emails prev)) =
           trace (snd (processEmailsWithAI gt i (\<lambda>k. False) load (take (WEBLLM_BATCH_SIZE * N) emails) prev)) \<and>
         ((\<forall>k. WEBLLM_BATCH_SIZE * k < length emails \<longrightarrow> \<not> aborted' k) \<longrightarrow>
            processEmailsWithAI gt i aborted' load emails prev =
            processEmailsWithAI gt i (\<lambda>k. False) load emails prev)"
proof -
  let ?st = "\<lambda>es. \<lparr>acc = [],
        progress = prev\<lparr>currentStatus := ''Processing emails with AI...'',
                        totalBatches := (length es + (WEBLLM_BATCH_SIZE - 1)) div WEBLLM_BATCH_SIZE,
                        currentBatch := 0\<rparr>,
        trace = []\<rparr>"
  let ?pre = "take (WEBLLM_BATCH_SIZE * N) emails"
  have ag: "agree (?st emails) (?st ?pre)"
    by (simp add: agree_def)
  from assms have "\<forall>j<N. \<not> aborted (0 + j)" and "aborted (0 + N)"
    by simp_all
  note c = aiLoop_cancel [OF this assms(3) ag, of gt i load]
  have first: "fst (processEmailsWithAI gt i aborted load emails prev) =
           (case fst (processEmailsWithAI gt i (\<lambda>k. False) load ?pre prev) of
              None \<Rightarrow> Some (JsError ''Error'' ''Operation cancelled'')
            | Some e \<Rightarrow> Some e)"
    using c unfolding processEmailsWithAI_def by blast
  have same: "agree (snd (processEmailsWithAI gt i aborted load emails prev))
                    (snd (processEmailsWithAI gt i (\<lambda>k. False) load ?pre prev))"
    using c unfolding processEmailsWithAI_def by blast
  have complete: "fst (processEmailsWithAI gt i (\<lambda>k. False) load ?pre prev) = None"
    if "\<forall>k e. load k = Inl e \<longrightarrow> errName e \<noteq> ''AbortError''"
    unfolding processEmailsWithAI_def by (rule aiLoop_completes [OF that])
  have late: "processEmailsWithAI gt i aborted' load emails prev =
              processEmailsWithAI gt i (\<lambda>k. False) load emails prev"
    if "\<forall>k. WEBLLM_BATCH_SIZE * k < length emails \<longrightarrow> \<not> aborted' k"
    unfolding processEmailsWithAI_def
    by (rule aiLoop_boundaries_only) (use that in simp)
  show ?thesis
    using first same complete late by (simp add: agree_def)
qed

theorem cancellation_between_chunks_witness:
  "\<not> (1 \<le> (0::nat)) \<and> WEBLLM_BATCH_SIZE * 1 < length sixMails \<and>
   fst (processEmailsWithAI epochMs True (\<lambda>k. 1 \<le> k) (\<lambda>k. Inr Map.empty) sixMails startingProgress)
     = Some (JsError ''Error'' ''Operation cancelled'') \<and>
   acc (snd (processEmailsWithAI epochMs True (\<lambda>k. 1 \<le> k) (\<lambda>k. Inr Map.empty) sixMails startingProgress))
     = acc (snd (processEmailsWithAI epochMs True (\<lambda>k. False) (\<lambda>k. Inr Map.empty)
                   (take (WEBLLM_BATCH_SIZE * 1) sixMails) startingProgress)) \<and>
   trace (snd (processEmailsWithAI epochMs True (\<lambda>k. 1 \<le> k) (\<lambda>k. Inr Map.empty) sixMails startingProgress))
     = trace (snd (processEmailsWithAI epochMs True (\<lambda>k. False) (\<lambda>k. Inr Map.empty)
                   (take (WEBLLM_BATCH_SIZE * 1) sixMails) startingProgress))"
proof -
  have l: "length sixMails = 6"
    by (simp add: sixMails_def)
  show ?thesis
    using cancellation_between_chunks
      [where N = 1 and aborted = "\<lambda>k. 1 \<le> k" and emails = sixMails
         and load = "\<lambda>k. Inr Map.empty" and gt = epochMs and i = True
         and prev = startingProgress and aborted' = "\<lambda>k. False", THEN conjunct2]
    by (simp add: l WEBLLM_BATCH_SIZE_def)
qed

theorem cancelled_run_throws_counterexample:
  "fst (processEmailsWithAI epochMs True (\<lambda>k. 1 \<le> k) (\<lambda>k. Inr Map.empty) sixMails startingProgress)
     = Some (JsError ''Error'' ''Operation cancelled'') \<and>
   map emailId (results (progress (snd
     (processEmailsWithAI epochMs True (\<lambda>k. 1 \<le> k) (\<lambda>k. Inr Map.empty) sixMails startingProgress))))
     = [''a'', ''b'', ''c'', ''d'', ''e'']"
  by (simp add: processEmailsWithAI_def aiLoop.simps sixMails_def WEBLLM_BATCH_SIZE_def
        announceBatch_def publishResults_def startingProgress_def
        processEmailsChronologically_def sortedEmails_def epochMs_def run_defs mail_def answers_def)

section \<open>Properties of the RPC channel\<close>

text \<open>
  C1. In every state the channel reaches from its initial state, by any sequence of
  dispatches, worker messages, timer expiries, worker errors and termination: a
  dispatched request has been resolved at most once, and it is unresolved exactly as
  long as its deadline timer is armed, so it cannot stay unresolved past its deadline;
  a request that has been resolved stays resolved exactly once whatever happens later;
  a request never dispatched is never resolved. The expiry of an armed timer resolves its
  request (as a timeout) and removes the entry of its id. An entry in the pending table
  belongs to an unresolved request. A response whose id has no pending entry is logged
  and discarded: the state is unchanged but for the console line. A response whose id
  has a pending entry resolves that request once, with the error if it carries one and
  the result otherwise, and removes the entry from the table.
\<close>

theorem each_request_resolved_once:
  assumes reach: "ch = run evs (newChannel w)"
  shows "(n < nextRequest ch \<longrightarrow>
            resolutions n ch \<le> 1 \<and> (resolutions n ch = 0) = (timers ch n \<noteq> None)) \<and>
         (nextRequest ch \<le> n \<longrightarrow> resolutions n ch = 0) \<and>
         (resolutions n ch = 1 \<longrightarrow> resolutions n (run later ch) = 1) \<and>
         (timers ch n = Some i \<longrightarrow>
            resolutions n (timerFires n ch) = 1 \<and>
            map_of (pendingRequests (timerFires n ch)) i = None) \<and>
         (map_of (pendingRequests ch) i = Some n \<longrightarrow>
            timers ch n = Some i \<and> resolutions n ch = 0) \<and>
         (resp_progress resp = None \<and> map_of (pendingRequests ch) (resp_id resp) = None \<longrightarrow>
            handleWorkerMessage resp ch =
              ch\<lparr>console := console ch @ [UnknownRequest (resp_id resp)]\<rparr>) \<and>
         (resp_progress resp = None \<and> map_of (pendingRequests ch) (resp_id resp) = Some n \<longrightarrow>
            map_of (pendingRequests (handleWorkerMessage resp ch)) (resp_id resp) = None \<and>
            settled (handleWorkerMessage resp ch) =
              settled ch @ [(n, if strTruthy (resp_error resp)
                                then Failed (template (resp_error resp))
                                else Fulfilled (resp_result resp))] \<and>
            resolutions n (handleWorkerMessage resp ch) = 1)"
proof -
  have inv: "chanInv ch"
    unfolding reach by (rule chanInv_run) (rule chanInv_new)
  have c: "timers ch m \<noteq> None \<Longrightarrow> m < nextRequest ch \<and> resolutions m ch = 0"
    and d: "m < nextRequest ch \<Longrightarrow> timers ch m = None \<Longrightarrow> resolutions m ch = 1"
    and e: "nextRequest ch \<le> m \<Longrightarrow> resolutions m ch = 0"
    and b: "map_of (pendingRequests ch) j = Some m \<Longrightarrow> timers ch m = Some j" for m j
    using inv unfolding chanInv_def by blast+
  have once: "n < nextRequest ch \<longrightarrow>
            resolutions n ch \<le> 1 \<and> (resolutions n ch = 0) = (timers ch n \<noteq> None)"
    using c [of n] d [of n] by (cases "timers ch n") auto
  have never: "nextRequest ch \<le> n \<longrightarrow> resolutions n ch = 0"
    using e by blast
  have forever: "resolutions n ch = 1 \<longrightarrow> resolutions n (run later ch) = 1"
  proof
    assume r: "resolutions n ch = 1"
    then have n: "n < nextRequest ch" using e [of n] by (cases "n < nextRequest ch") auto
    with r c [of n] have t: "timers ch n = None" by (cases "timers ch n") auto
    from settled_stays_run [OF inv n t, of later] chanInv_run [OF inv, of later]
    show "resolutions n (run later ch) = 1"
      unfolding chanInv_def by blast
  qed
  have timeout: "timers ch n = Some i \<longrightarrow>
            resolutions n (timerFires n ch) = 1 \<and>
            map_of (pendingRequests (timerFires n ch)) i = None"
    using c [of n] by (auto simp: timerFires_def resolutions_def delete_conv')
  have pending: "map_of (pendingRequests ch) i = Some n \<longrightarrow>
            timers ch n = Some i \<and> resolutions n ch = 0"
    using b [of i n] c [of n] by auto
  have unknown: "resp_progress resp = None \<and> map_of (pendingRequests ch) (resp_id resp) = None \<longrightarrow>
            handleWorkerMessage resp ch =
              ch\<lparr>console := console ch @ [UnknownRequest (resp_id resp)]\<rparr>"
    by (simp add: handleWorkerMessage_def)
  have known: "resp_progress resp = None \<and> map_of (pendingRequests ch) (resp_id resp) = Some n \<longrightarrow>
            map_of (pendingRequests (handleWorkerMessage resp ch)) (resp_id resp) = None \<and>
            settled (handleWorkerMessage resp ch) =
              settled ch @ [(n, if strTruthy (resp_error resp)
                                then Failed (template (resp_error resp))
                                else Fulfilled (resp_result resp))] \<and>
            resolutions n (handleWorkerMessage resp ch) = 1"
  proof
    assume h: "resp_progress resp = None \<and> map_of (pendingRequests ch) (resp_id resp) = Some n"
    with b [of "resp_id resp" n] c [of n] have "resolutions n ch = 0" by simp
    with h show "map_of (pendingRequests (handleWorkerMessage resp ch)) (resp_id resp) = None \<and>
            settled (handleWorkerMessage resp ch) =
              settled ch @ [(n, if strTruthy (resp_error resp)
                                then Failed (template (resp_error resp))
                                else Fulfilled (resp_result resp))] \<and>
            resolutions n (handleWorkerMessage resp ch) = 1"
      by (simp add: handleWorkerMessage_def resolutions_def delete_conv')
  qed
  from once never forever timeout pending unknown known show ?thesis
    by (intro conjI)
qed

theorem each_request_resolved_once_witness:
  "(0::nat) < nextRequest (run [Post classifyRequest [], Message classifyAnswer] (newChannel True)) \<and>
   resolutions 0 (run [Post classifyRequest [], Message classifyAnswer] (newChannel True)) = 1 \<and>
   resolutions 0 (run [Message classifyAnswer, TimerFires 0, WorkerError ''crashed'']
                    (run [Post classifyRequest [], Message classifyAnswer] (newChannel True))) = 1 \<and>
   handleWorkerMessage classifyAnswer
       (run [Post classifyRequest [], Message classifyAnswer] (newChannel True)) =
     (run [Post classifyRequest [], Message classifyAnswer] (newChannel True))
       \<lparr>console := [UnknownRequest ''classify_1'']\<rparr>"
proof -
  let ?ch = "run [Post classifyRequest [], Message classifyAnswer] (newChannel True)"
  note t = each_request_resolved_once
    [where ch = ?ch and evs = "[Post classifyRequest [], Message classifyAnswer]" and w = True
       and n = 0 and resp = classifyAnswer and i = "''classify_1''"
       and later = "[Message classifyAnswer, TimerFires 0, WorkerError ''crashed'']", OF refl]
  have n: "nextRequest ?ch = 1" and r: "resolutions 0 ?ch = 1"
    by (simp_all add: channel_defs classifyRequest_def classifyAnswer_def)
  have p: "resp_progress classifyAnswer = None \<and>
           map_of (pendingRequests ?ch) (resp_id classifyAnswer) = None"
    by (simp add: channel_defs classifyRequest_def classifyAnswer_def)
  have c: "console ?ch = []" and i: "resp_id classifyAnswer = ''classify_1''"
    by (simp_all add: channel_defs classifyRequest_def classifyAnswer_def)
  from t have later: "resolutions 0 ?ch = 1 \<longrightarrow>
      resolutions 0 (run [Message classifyAnswer, TimerFires 0, WorkerError ''crashed''] ?ch) = 1"
    by blast
  from t have unknown: "resp_progress classifyAnswer = None \<and>
        map_of (pendingRequests ?ch) (resp_id classifyAnswer) = None \<longrightarrow>
      handleWorkerMessage classifyAnswer ?ch =
        ?ch\<lparr>console := console ?ch @ [UnknownRequest (resp_id classifyAnswer)]\<rparr>"
    by blast
  from later r have "resolutions 0 (run [Message classifyAnswer, TimerFires 0, WorkerError ''crashed''] ?ch) = 1"
    by blast
  moreover from unknown p have "handleWorkerMessage classifyAnswer ?ch =
        ?ch\<lparr>console := console ?ch @ [UnknownRequest (resp_id classifyAnswer)]\<rparr>"
    by blast
  ultimately show ?thesis
    by (simp add: n r c i)
qed

end
